theory Spec2Isabelle
  imports Main "HOL-Library.Sublist"
begin

section \<open>Python text operations used by the JavaScript target\<close>

text \<open>
  Python text is modelled as \<open>string\<close>; a \<open>char\<close> stands for one code point below 256.
  The operations below are the library calls that \<open>JS.py\<close> makes on text:
  \<open>str.strip()\<close>, \<open>str.replace(old, new)\<close>, \<open>str.split("\n")\<close>, \<open>"\n".join(...)\<close>
  and the substring test \<open>a in b\<close>.
\<close>

text \<open>
  \<open>str.isspace\<close> on one character: the code points below 256 that Python treats as
  whitespace (tab, line feed, vertical tab, form feed, carriage return, the four
  separators 28 to 31, space, next line, no-break space).
\<close>

definition isspace :: "char \<Rightarrow> bool" where
  "isspace c = (of_char c \<in> {9, 10, 11, 12, 13, 28, 29, 30, 31, 32, 133, 160 :: nat})"

text \<open>\<open>s.strip()\<close>: whitespace is removed at both ends.\<close>

definition strip :: "string \<Rightarrow> string" where
  "strip s = rev (dropWhile isspace (rev (dropWhile isspace s)))"

text \<open>
  \<open>s.replace(old, new)\<close>: every occurrence of \<open>old\<close>, found from left to right without
  overlap, is replaced. An empty \<open>old\<close> matches before every character and at the end.
\<close>

function replace :: "string \<Rightarrow> string \<Rightarrow> string \<Rightarrow> string" where
  "replace old new [] = (if old = [] then new else [])"
| "replace old new (c # cs) =
     (if old = [] then new @ c # replace old new cs
      else if prefix old (c # cs) then new @ replace old new (drop (length old) (c # cs))
      else c # replace old new cs)"
  by pat_completeness auto
termination
  by (relation "measure (\<lambda>(old, new, s). length s)") (auto simp: neq_Nil_conv)

text \<open>\<open>s.split("\n")\<close>: the pieces between line feeds; never an empty list.\<close>

fun split_lines :: "string \<Rightarrow> string list" where
  "split_lines [] = ['''']"
| "split_lines (c # cs) =
     (if c = CHR 0x0A then [] # split_lines cs
      else (c # hd (split_lines cs)) # tl (split_lines cs))"

text \<open>\<open>"\n".join(ls)\<close>.\<close>

fun join_lines :: "string list \<Rightarrow> string" where
  "join_lines [] = []"
| "join_lines [l] = l"
| "join_lines (l # ls) = l @ CHR 0x0A # join_lines ls"

text \<open>\<open>sub in s\<close>: \<open>sub\<close> starts at some position of \<open>s\<close>.\<close>

fun contains :: "string \<Rightarrow> string \<Rightarrow> bool" where
  "contains sub [] = (sub = [])"
| "contains sub (c # cs) = (prefix sub (c # cs) \<or> contains sub cs)"


section \<open>The target adapter\<close>

text \<open>
  The dictionary \<open>prompt_used\<close> that \<open>_create_prompt_from_config\<close> returns, with its six
  keys; \<open>begin\<close> is a keyword here, so that key is the field \<open>begin_marker\<close>.
\<close>

record prompt =
  docstring :: string
  example_code :: string
  separator :: string
  begin_marker :: string
  hw_prompt :: string
  target_api :: string

text \<open>
  The attributes of a \<open>JSTarget\<close> instance that the methods read. \<open>CURRENT_TIME\<close> and
  \<open>timeout\<close> are set by the base class \<open>Target\<close>, which is not part of the sources at
  hand: \<open>CURRENT_TIME\<close> is kept as the text that the f-string renders for it, and
  \<open>timeout\<close> is a number of time units.
\<close>

record JSTarget =
  prompt_used :: prompt
  CURRENT_TIME :: string
  timeout :: nat

text \<open>
  \<open>comment_remover\<close> is imported from \<open>Fuzz4All.util.util\<close>, which is not part of the
  sources at hand. The methods take it as the parameter \<open>cr\<close>.
\<close>

definition filter_code :: "(string \<Rightarrow> string) \<Rightarrow> JSTarget \<Rightarrow> string \<Rightarrow> bool" where
  "filter_code cr self code =
     (let code1 = strip (replace (begin_marker (prompt_used self)) [] code);
          code2 = cr code1
      in contains (target_api (prompt_used self)) code2)"

definition clean_code :: "(string \<Rightarrow> string) \<Rightarrow> JSTarget \<Rightarrow> string \<Rightarrow> string" where
  "clean_code cr self code =
     (let code1 = strip (replace (begin_marker (prompt_used self)) [] code);
          code2 = cr code1
      in join_lines (filter (\<lambda>ln. strip ln \<noteq> []) (split_lines code2)))"


subsection \<open>Files and child processes\<close>

text \<open>
  The world outside the adapter: the files, by path, and the child processes the adapter
  has started that are still running, by command line.
\<close>

record world =
  files :: "string \<rightharpoonup> string"
  children :: "string list list"

definition write_back_file ::
  "(string \<Rightarrow> string) \<Rightarrow> JSTarget \<Rightarrow> string \<Rightarrow> world \<Rightarrow> string \<times> world" where
  "write_back_file cr self code w =
     (let code1 = clean_code cr self code;
          wb = ''/tmp/temp'' @ CURRENT_TIME self @ ''.js''
      in (wb, w\<lparr>files := (files w)(wb \<mapsto> code1)\<rparr>))"

text \<open>
  The exceptions that leave \<open>subprocess.run\<close> here. Starting the child can fail with an
  error of the operating system, which Python raises as \<open>FileNotFoundError\<close> when no
  such file is found (the binary is not on the path, or the program named on its
  interpreter line is missing), as \<open>PermissionError\<close> when access is denied, and as
  another \<open>OSError\<close> otherwise (an exec format error, for one). Waiting for the child
  raises \<open>TimeoutExpired\<close>; decoding its output, which \<open>text=True\<close> asks for, raises
  \<open>UnicodeDecodeError\<close>.
\<close>

datatype exn = TimeoutExpired | FileNotFoundError | PermissionError | OSError | UnicodeDecodeError

datatype start_error = NoSuchFile | AccessDenied | OtherError

fun oserror :: "start_error \<Rightarrow> exn" where
  "oserror NoSuchFile = FileNotFoundError"
| "oserror AccessDenied = PermissionError"
| "oserror OtherError = OSError"

text \<open>
  A child that was started:
  \<^item> \<open>ends_after\<close>: the time units until the child process has ended, \<open>None\<close> when it never
    ends by itself;
  \<^item> \<open>eof_after\<close>: the time units until both of its output pipes are at end of file, which
    is later than \<open>ends_after\<close> when a process the child started keeps them open;
  \<^item> \<open>exit_status\<close>: its exit status, once it has ended;
  \<^item> \<open>stdout_text\<close>, \<open>stderr_text\<close>: what it wrote on each stream, decoded, \<open>None\<close> when
    the bytes written do not decode;
  \<^item> \<open>files_left\<close>: the files as the child leaves them, when it ends or is killed. The
    child runs the candidate, which can write and delete files, its own source among them.
\<close>

record child =
  ends_after :: "nat option"
  eof_after :: "nat option"
  exit_status :: int
  stdout_text :: "string option"
  stderr_text :: "string option"
  files_left :: "string \<rightharpoonup> string"

text \<open>
  What starting a command line does on a machine: the start fails, or a child runs. A
  machine decides this from the command line and from the world it is started in.
\<close>

datatype spawn = CannotStart start_error | Runs child

type_synonym machine = "string list \<Rightarrow> world \<Rightarrow> spawn"

record CompletedProcess =
  returncode :: int
  stdout :: string
  stderr :: string

text \<open>Something that happens after \<open>d\<close> time units has happened when \<open>t\<close> are over.\<close>

fun in_time :: "nat \<Rightarrow> nat option \<Rightarrow> bool" where
  "in_time t None = False"
| "in_time t (Some d) = (d \<le> t)"

text \<open>
  \<open>subprocess.run(args, capture_output=True, text=True, timeout=t)\<close>. The child is
  started; its two pipes are read to the end and the child is waited for, all within
  \<open>t\<close>. When the time is over first, the child is killed and reaped and
  \<open>TimeoutExpired\<close> is raised. Otherwise the bytes read are decoded, and a stream that
  does not decode raises \<open>UnicodeDecodeError\<close>. In each case the child is gone when the
  call is left, and the files are as the child left them.
\<close>

definition subprocess_run ::
  "machine \<Rightarrow> string list \<Rightarrow> nat \<Rightarrow> world \<Rightarrow> (exn + CompletedProcess) \<times> world" where
  "subprocess_run os args t w =
     (case os args w of
        CannotStart e \<Rightarrow> (Inl (oserror e), w)
      | Runs b \<Rightarrow>
          (let w1 = w\<lparr>children := args # children w\<rparr>;
               w2 = w1\<lparr>files := files_left b, children := remove1 args (children w1)\<rparr>
           in if in_time t (ends_after b) \<and> in_time t (eof_after b)
              then (case (stdout_text b, stderr_text b) of
                      (Some out, Some err) \<Rightarrow>
                        (Inr \<lparr>returncode = exit_status b, stdout = out, stderr = err\<rparr>, w2)
                    | _ \<Rightarrow> (Inl UnicodeDecodeError, w2))
              else (Inl TimeoutExpired, w2)))"

text \<open>The members of the enumeration \<open>FResult\<close> that the target returns.\<close>

datatype FResult = SAFE | FAILURE | ERROR | TIMED_OUT

text \<open>
  \<open>validate_individual\<close>: an exception that neither \<open>except\<close> clause catches leaves the
  method (\<open>Inl\<close>). \<open>x or y\<close> on text is \<open>y\<close> when \<open>x\<close> is empty.
\<close>

definition validate_individual ::
  "machine \<Rightarrow> JSTarget \<Rightarrow> string \<Rightarrow> world \<Rightarrow> (exn + FResult \<times> string) \<times> world" where
  "validate_individual os self filename w =
     (case subprocess_run os [''node'', filename] (timeout self) w of
        (Inl TimeoutExpired, w') \<Rightarrow> (Inr (TIMED_OUT, ''javascript''), w')
      | (Inl FileNotFoundError, w') \<Rightarrow> (Inr (ERROR, ''node-not-found''), w')
      | (Inl e, w') \<Rightarrow> (Inl e, w')
      | (Inr exit_code, w') \<Rightarrow>
          (if returncode exit_code = 0
           then (Inr (SAFE, if stdout exit_code = [] then ''ok'' else stdout exit_code), w')
           else (Inr (FAILURE, if stderr exit_code = [] then stdout exit_code
                               else stderr exit_code), w')))"


subsection \<open>The comment stripper\<close>

text \<open>
  Modelled from the spec: \<open>comment_remover\<close> of \<open>Fuzz4All.util.util\<close> is missing from the
  sources at hand, and the spec says of it only that it strips all comments. The
  stripper below removes the two JavaScript comment forms, a line comment up to its line
  feed and a block comment up to its closing mark, and leaves every other character
  alone. It is used where a concrete text is evaluated; the general results hold for
  every function put in its place.
\<close>

datatype scan = InCode | InLineComment | InBlockComment

fun strip_from :: "scan \<Rightarrow> string \<Rightarrow> string" where
  "strip_from m [] = []"
| "strip_from InCode (c # cs) =
     (if prefix ''//'' (c # cs) then strip_from InLineComment cs
      else if prefix ''/*'' (c # cs) then strip_from InBlockComment cs
      else c # strip_from InCode cs)"
| "strip_from InLineComment (c # cs) =
     (if c = CHR 0x0A then c # strip_from InCode cs else strip_from InLineComment cs)"
| "strip_from InBlockComment (c # cs) =
     (if prefix ''*/'' (c # cs) then strip_from InCode (tl cs)
      else strip_from InBlockComment cs)"

definition comment_remover :: "string \<Rightarrow> string" where
  "comment_remover code = strip_from InCode code"


subsection \<open>The acceptance check as the specification words it\<close>

text \<open>
  The specification describes the acceptance check as: remove the first literal
  occurrence of the begin marker, trim, strip all comments, test for the target symbol.
\<close>

fun remove_first :: "string \<Rightarrow> string \<Rightarrow> string" where
  "remove_first old [] = []"
| "remove_first old (c # cs) =
     (if prefix old (c # cs) then drop (length old) (c # cs) else c # remove_first old cs)"

definition accept_spec :: "(string \<Rightarrow> string) \<Rightarrow> JSTarget \<Rightarrow> string \<Rightarrow> bool" where
  "accept_spec cr self code =
     contains (target_api (prompt_used self))
       (cr (strip (remove_first (begin_marker (prompt_used self)) code)))"


subsection \<open>Concrete adapters, worlds and machines\<close>

definition example_target :: JSTarget where
  "example_target =
     \<lparr>prompt_used =
        \<lparr>docstring = ''Call foobar.'', example_code = ''foobar();'',
         separator = ''/* === */'', begin_marker = ''BEGIN'', hw_prompt = [],
         target_api = ''foobar''\<rparr>,
      CURRENT_TIME = ''0'', timeout = 10\<rparr>"

text \<open>The same adapter configured with a single space as its target symbol.\<close>

definition blank_target :: JSTarget where
  "blank_target =
     example_target\<lparr>prompt_used := (prompt_used example_target)\<lparr>target_api := '' ''\<rparr>\<rparr>"

definition empty_world :: world where
  "empty_world = \<lparr>files = Map.empty, children = []\<rparr>"

text \<open>
  Machines: one outcome for every command line. A child that ends at once, with its
  pipes closed and no file touched:
\<close>

definition exits_with :: "int \<Rightarrow> string option \<Rightarrow> string option \<Rightarrow> world \<Rightarrow> child" where
  "exits_with rc out err w =
     \<lparr>ends_after = Some 1, eof_after = Some 1, exit_status = rc,
      stdout_text = out, stderr_text = err, files_left = files w\<rparr>"

definition node_missing :: machine where
  "node_missing args w = CannotStart NoSuchFile"

definition node_not_executable :: machine where
  "node_not_executable args w = CannotStart AccessDenied"

definition node_hangs :: machine where
  "node_hangs args w = Runs ((exits_with 0 (Some []) (Some []) w)
     \<lparr>ends_after := None, eof_after := None\<rparr>)"

definition node_quiet :: machine where
  "node_quiet args w = Runs (exits_with 0 (Some []) (Some []) w)"


definition node_silent_failure :: machine where
  "node_silent_failure args w = Runs (exits_with 1 (Some []) (Some []) w)"



text \<open>
  A child that ends at once with status 0 after starting a process that keeps its pipes
  open for good.
\<close>

definition node_detaches :: machine where
  "node_detaches args w = Runs ((exits_with 0 (Some []) (Some []) w)\<lparr>eof_after := None\<rparr>)"

text \<open>Two candidates as \<open>write_back_file\<close> leaves them, one after the other.\<close>

definition first_written :: "string \<times> world" where
  "first_written = write_back_file comment_remover example_target ''foobar(1);'' empty_world"

definition second_written :: "string \<times> world" where
  "second_written =
     write_back_file comment_remover example_target ''foobar(2);'' (snd first_written)"


section \<open>Facts about the text operations\<close>

lemma contains_sublist: "contains sub s \<longleftrightarrow> sublist sub s"
  by (induction s) (simp_all add: sublist_Cons_right)

lemma strip_eq_Nil: "strip l = [] \<longleftrightarrow> (\<forall>c\<in>set l. isspace c)"
proof -
  have "strip l = [] \<longleftrightarrow> (\<forall>c\<in>set (dropWhile isspace l). isspace c)"
    by (simp add: strip_def dropWhile_eq_Nil_conv)
  also have "\<dots> \<longleftrightarrow> dropWhile isspace l = []"
  proof (cases "dropWhile isspace l")
    case Nil
    then show ?thesis by (simp del: dropWhile_eq_Nil_conv)
  next
    case (Cons c cs)
    then have "\<not> isspace c" using hd_dropWhile [of isspace l] by simp
    with Cons show ?thesis by auto
  qed
  finally show ?thesis by (simp add: dropWhile_eq_Nil_conv)
qed

lemma split_lines_not_Nil: "split_lines s \<noteq> []"
  by (induction s) simp_all

lemma split_lines_no_newline: "l \<in> set (split_lines s) \<Longrightarrow> CHR 0x0A \<notin> set l"
proof (induction s arbitrary: l)
  case Nil
  then show ?case by simp
next
  case (Cons c cs)
  obtain h t where ht: "split_lines cs = h # t"
    using split_lines_not_Nil [of cs] by (cases "split_lines cs") auto
  with Cons show ?case by (auto split: if_splits)
qed

lemma split_join_lines:
  "ls \<noteq> [] \<Longrightarrow> \<forall>l\<in>set ls. CHR 0x0A \<notin> set l \<Longrightarrow> split_lines (join_lines ls) = ls"
proof (induction ls rule: join_lines.induct)
  case 1
  then show ?case by simp
next
  case (2 l)
  then show ?case by (induction l) auto
next
  case (3 l v va)
  then have IH: "split_lines (join_lines (v # va)) = v # va" by simp
  from 3(3) have "CHR 0x0A \<notin> set l" by simp
  then show ?case using IH by (induction l) auto
qed

lemma sublist_join_lines: "l \<in> set ls \<Longrightarrow> sublist x l \<Longrightarrow> sublist x (join_lines ls)"
proof (induction ls rule: join_lines.induct)
  case 1
  then show ?case by simp
next
  case (2 l')
  then show ?case by simp
next
  case (3 l' v va)
  show ?case
  proof (cases "l = l'")
    case True
    with 3(3) have "sublist x (l' @ (CHR 0x0A # join_lines (v # va)))"
      by (simp add: sublist_append)
    then show ?thesis by simp
  next
    case False
    with 3 have "sublist x (join_lines (v # va))" by simp
    then have "sublist x (l' @ (CHR 0x0A # join_lines (v # va)))"
      by (simp add: sublist_append sublist_Cons_right)
    then show ?thesis by simp
  qed
qed

lemma prefix_first_line:
  "prefix x s \<Longrightarrow> CHR 0x0A \<notin> set x \<Longrightarrow> prefix x (hd (split_lines s))"
proof (induction s arbitrary: x)
  case Nil
  then show ?case by simp
next
  case (Cons c cs)
  show ?case
  proof (cases x)
    case Nil
    then show ?thesis by simp
  next
    case (Cons y ys)
    with Cons.prems have "y = c" "prefix ys cs" "c \<noteq> CHR 0x0A" "CHR 0x0A \<notin> set ys" by auto
    with Cons.IH [of ys] Cons show ?thesis by simp
  qed
qed

lemma sublist_some_line:
  "sublist x s \<Longrightarrow> CHR 0x0A \<notin> set x \<Longrightarrow> \<exists>l\<in>set (split_lines s). sublist x l"
proof (induction s)
  case Nil
  then show ?case by simp
next
  case (Cons c cs)
  obtain h t where ht: "split_lines cs = h # t"
    using split_lines_not_Nil [of cs] by (cases "split_lines cs") auto
  from Cons.prems(1) consider "prefix x (c # cs)" | "sublist x cs"
    by (auto simp: sublist_Cons_right)
  then show ?case
  proof cases
    case 1
    then have "prefix x (hd (split_lines (c # cs)))"
      using Cons.prems(2) by (rule prefix_first_line)
    moreover have "hd (split_lines (c # cs)) \<in> set (split_lines (c # cs))"
      using split_lines_not_Nil by simp
    ultimately show ?thesis by (meson prefix_imp_sublist)
  next
    case 2
    then obtain l where l: "l \<in> set (split_lines cs)" "sublist x l"
      using Cons by blast
    show ?thesis
    proof (cases "c = CHR 0x0A")
      case True
      with l show ?thesis by auto
    next
      case False
      from l ht have "l = h \<or> l \<in> set t" by simp
      then show ?thesis
      proof
        assume "l = h"
        with l(2) have "sublist x (c # h)" by (simp add: sublist_Cons_right)
        with False ht show ?thesis by simp
      next
        assume "l \<in> set t"
        with False ht l(2) show ?thesis by auto
      qed
    qed
  qed
qed

lemma replace_absent: "\<not> sublist old s \<Longrightarrow> replace old [] s = s"
proof (induction s)
  case Nil
  then show ?case by auto
next
  case (Cons c cs)
  then have "old \<noteq> []" "\<not> prefix old (c # cs)" "\<not> sublist old cs"
    by (auto simp: sublist_Cons_right)
  with Cons.IH show ?case by simp
qed

text \<open>Dropping the blank lines of a text a second time changes nothing.\<close>

lemma drop_blank_lines_twice:
  "join_lines (filter (\<lambda>ln. strip ln \<noteq> [])
       (split_lines (join_lines (filter (\<lambda>ln. strip ln \<noteq> []) (split_lines s)))))
     = join_lines (filter (\<lambda>ln. strip ln \<noteq> []) (split_lines s))"
proof (cases "filter (\<lambda>ln. strip ln \<noteq> []) (split_lines s) = []")
  case True
  then show ?thesis by (simp add: strip_def)
next
  case False
  have "\<forall>l\<in>set (filter (\<lambda>ln. strip ln \<noteq> []) (split_lines s)). CHR 0x0A \<notin> set l"
    using split_lines_no_newline by auto
  with False have "split_lines (join_lines (filter (\<lambda>ln. strip ln \<noteq> []) (split_lines s)))
      = filter (\<lambda>ln. strip ln \<noteq> []) (split_lines s)"
    by (rule split_join_lines)
  then show ?thesis by simp
qed


section \<open>Running the interpreter and classifying the result\<close>

text \<open>
  \<open>subprocess.run\<close> leaves no child behind, and leaves the files as the child left
  them; \<open>validate_individual\<close> changes nothing more.
\<close>

lemma subprocess_run_children:
  "children (snd (subprocess_run os args t w)) = children w"
  by (simp add: subprocess_run_def Let_def split: spawn.splits option.splits)

lemma subprocess_run_files:
  "files (snd (subprocess_run os args t w))
     = (case os args w of CannotStart e \<Rightarrow> files w | Runs b \<Rightarrow> files_left b)"
  by (simp add: subprocess_run_def Let_def split: spawn.splits option.splits)

lemma validate_individual_world:
  "snd (validate_individual os self filename w)
     = snd (subprocess_run os [''node'', filename] (timeout self) w)"
proof -
  obtain r w' where run: "subprocess_run os [''node'', filename] (timeout self) w = (r, w')"
    by (cases "subprocess_run os [''node'', filename] (timeout self) w")
  then show ?thesis
    by (simp add: validate_individual_def split: sum.splits exn.splits)
qed

text \<open>The call returns a \<open>CompletedProcess\<close> when all is read and decoded in time.\<close>

lemma subprocess_run_returns:
  assumes "os args w = Runs b"
    and "ends_after b = Some d" and "d \<le> t" and "eof_after b = Some e" and "e \<le> t"
    and "stdout_text b = Some out" and "stderr_text b = Some err"
  shows "fst (subprocess_run os args t w)
           = Inr \<lparr>returncode = exit_status b, stdout = out, stderr = err\<rparr>"
  using assms by (simp add: subprocess_run_def Let_def)




text \<open>
  A second run that ends with exit status zero within the timeout and is not \<open>SAFE\<close>:
  the child has started a process that keeps the pipes open, so reading them does not
  end in time.
\<close>

lemma validate_individual_pipes_held:
  "ends_after (exits_with 0 (Some []) (Some []) empty_world\<lparr>eof_after := None\<rparr>) = Some 1
   \<and> (1::nat) \<le> timeout example_target
   \<and> fst (validate_individual node_detaches example_target ''/tmp/temp0.js'' empty_world)
       = Inr (TIMED_OUT, ''javascript'')"
  by (simp add: validate_individual_def subprocess_run_def node_detaches_def exits_with_def
      example_target_def Let_def)




text \<open>
  Claim C10. When the interpreter process ends within the timeout with a nonzero exit
  status and both captured streams are empty texts, \<open>validate_individual\<close> returns
  \<open>FAILURE\<close> with the empty text as diagnostic: nothing is put in its place, unlike
  \<open>ok\<close> on the \<open>SAFE\<close> path.
\<close>

theorem validate_individual_failure_empty:
  assumes "os [''node'', filename] w = Runs b"
    and "ends_after b = Some d" and "d \<le> timeout self" and "exit_status b \<noteq> 0"
    and "eof_after b = Some e" and "e \<le> timeout self"
    and "stdout_text b = Some []" and "stderr_text b = Some []"
  shows "fst (validate_individual os self filename w) = Inr (FAILURE, [])"
  using assms by (simp add: validate_individual_def subprocess_run_def Let_def)

theorem validate_individual_failure_empty_witness:
  "node_silent_failure [''node'', ''/tmp/temp0.js''] empty_world
     = Runs (exits_with 1 (Some []) (Some []) empty_world)
   \<and> ends_after (exits_with 1 (Some []) (Some []) empty_world) = Some 1
   \<and> eof_after (exits_with 1 (Some []) (Some []) empty_world) = Some 1
   \<and> (1::nat) \<le> timeout example_target
   \<and> exit_status (exits_with 1 (Some []) (Some []) empty_world) \<noteq> 0
   \<and> stdout_text (exits_with 1 (Some []) (Some []) empty_world) = Some []
   \<and> stderr_text (exits_with 1 (Some []) (Some []) empty_world) = Some []
   \<and> fst (validate_individual node_silent_failure example_target ''/tmp/temp0.js''
            empty_world)
       = Inr (FAILURE, [])"
  using validate_individual_failure_empty
    [of node_silent_failure "''/tmp/temp0.js''" empty_world
        "exits_with 1 (Some []) (Some []) empty_world" 1 example_target 1]
  by (simp add: node_silent_failure_def exits_with_def example_target_def)

text \<open>
  Claim C8. When the child process is still running at the end of the timeout (it never
  ends, or ends later), \<open>validate_individual\<close> returns \<open>TIMED_OUT\<close> with the fixed
  diagnostic \<open>javascript\<close>, and the child is not among the running processes when the
  call returns: \<open>subprocess.run\<close> has killed it.
\<close>

theorem validate_individual_timed_out:
  assumes "os [''node'', filename] w = Runs b"
    and "ends_after b = None \<or> (\<exists>d. ends_after b = Some d \<and> timeout self < d)"
  shows "fst (validate_individual os self filename w) = Inr (TIMED_OUT, ''javascript'')
         \<and> children (snd (validate_individual os self filename w)) = children w"
  using assms by (auto simp: validate_individual_def subprocess_run_def Let_def)

theorem validate_individual_timed_out_witness:
  "node_hangs [''node'', ''/tmp/temp0.js''] empty_world
     = Runs (exits_with 0 (Some []) (Some []) empty_world\<lparr>ends_after := None, eof_after := None\<rparr>)
   \<and> ends_after (exits_with 0 (Some []) (Some []) empty_world
         \<lparr>ends_after := None, eof_after := None\<rparr>) = None
   \<and> fst (validate_individual node_hangs example_target ''/tmp/temp0.js'' empty_world)
       = Inr (TIMED_OUT, ''javascript'')
   \<and> children (snd (validate_individual node_hangs example_target ''/tmp/temp0.js'' empty_world))
       = []"
  using validate_individual_timed_out
    [of node_hangs "''/tmp/temp0.js''" empty_world
        "exits_with 0 (Some []) (Some []) empty_world\<lparr>ends_after := None, eof_after := None\<rparr>"
        example_target]
  by (simp add: node_hangs_def empty_world_def)

text \<open>
  Claim C7, as amended. When the interpreter cannot be started because no such file is
  found, so that \<open>FileNotFoundError\<close> is raised, \<open>validate_individual\<close> returns \<open>ERROR\<close>
  with the fixed diagnostic \<open>node-not-found\<close>, whatever the file holds. When it cannot be
  started for another reason, the error (\<open>PermissionError\<close>, or another \<open>OSError\<close>) is
  not caught and leaves the method. In both cases the world is left as it was.
\<close>

theorem validate_individual_cannot_start:
  assumes "os [''node'', filename] w = CannotStart e"
  shows "validate_individual os self filename w
           = (if e = NoSuchFile then Inr (ERROR, ''node-not-found'') else Inl (oserror e), w)"
  using assms by (cases e) (simp_all add: validate_individual_def subprocess_run_def)

theorem validate_individual_cannot_start_witness:
  "node_missing [''node'', ''/tmp/temp0.js''] empty_world = CannotStart NoSuchFile
   \<and> validate_individual node_missing example_target ''/tmp/temp0.js'' empty_world
       = (Inr (ERROR, ''node-not-found''), empty_world)
   \<and> node_not_executable [''node'', ''/tmp/temp0.js''] empty_world = CannotStart AccessDenied
   \<and> validate_individual node_not_executable example_target ''/tmp/temp0.js'' empty_world
       = (Inl PermissionError, empty_world)"
  using validate_individual_cannot_start
    [of node_missing "''/tmp/temp0.js''" empty_world NoSuchFile example_target]
    validate_individual_cannot_start
    [of node_not_executable "''/tmp/temp0.js''" empty_world AccessDenied example_target]
  by (simp add: node_missing_def node_not_executable_def)

theorem validate_individual_not_executable_counterexample:
  "node_not_executable [''node'', ''/tmp/temp0.js''] empty_world = CannotStart AccessDenied
   \<and> fst (validate_individual node_not_executable example_target ''/tmp/temp0.js'' empty_world)
       = Inl PermissionError
   \<and> fst (validate_individual node_not_executable example_target ''/tmp/temp0.js'' empty_world)
       \<noteq> Inr (ERROR, ''node-not-found'')"
  by (simp add: validate_individual_def subprocess_run_def node_not_executable_def)

section \<open>Acceptance and normalisation\<close>

lemma filter_code_sublist:
  "filter_code cr self code \<longleftrightarrow>
     sublist (target_api (prompt_used self))
       (cr (strip (replace (begin_marker (prompt_used self)) [] code)))"
  by (simp add: filter_code_def contains_sublist)

lemma sublist_kept_lines:
  assumes "sublist x s" and "CHR 0x0A \<notin> set x" and "x = [] \<or> strip x \<noteq> []"
  shows "sublist x (join_lines (filter (\<lambda>ln. strip ln \<noteq> []) (split_lines s)))"
proof (cases "x = []")
  case True
  then show ?thesis by simp
next
  case False
  with assms(3) obtain c where c: "c \<in> set x" "\<not> isspace c"
    by (auto simp: strip_eq_Nil)
  from assms(1,2) obtain l where l: "l \<in> set (split_lines s)" "sublist x l"
    using sublist_some_line by blast
  from l(2) c(1) have "c \<in> set l"
    using set_mono_sublist by blast
  with c(2) have "strip l \<noteq> []"
    by (auto simp: strip_eq_Nil)
  with l(1) have "l \<in> set (filter (\<lambda>ln. strip ln \<noteq> []) (split_lines s))"
    by simp
  then show ?thesis using l(2) by (rule sublist_join_lines)
qed

lemma clean_code_example_blank_line:
  "clean_code comment_remover blank_target ''foobar();\<newline> \<newline>done();''
     = ''foobar();\<newline>done();''"
  by code_simp

text \<open>
  Claim C2. If \<open>filter_code\<close> accepts a candidate, then the target symbol is a verbatim
  substring of the normalised source \<open>clean_code\<close> makes of that candidate. The target
  symbol is the name of an API: it holds no line feed and is not blank (the empty
  symbol is allowed too).
\<close>

theorem filter_code_target_in_clean_code:
  assumes "filter_code cr self code"
    and "CHR 0x0A \<notin> set (target_api (prompt_used self))"
    and "target_api (prompt_used self) = [] \<or> strip (target_api (prompt_used self)) \<noteq> []"
  shows "sublist (target_api (prompt_used self)) (clean_code cr self code)"
proof -
  from assms(1)
  have "sublist (target_api (prompt_used self))
          (cr (strip (replace (begin_marker (prompt_used self)) [] code)))"
    by (simp add: filter_code_sublist)
  then show ?thesis
    using assms(2,3) by (simp add: clean_code_def sublist_kept_lines)
qed

theorem filter_code_target_in_clean_code_witness:
  "filter_code comment_remover example_target ''BEGIN\<newline>// call it\<newline>\<newline>foobar(1);''
   \<and> CHR 0x0A \<notin> set (target_api (prompt_used example_target))
   \<and> strip (target_api (prompt_used example_target)) \<noteq> []
   \<and> sublist (target_api (prompt_used example_target))
        (clean_code comment_remover example_target ''BEGIN\<newline>// call it\<newline>\<newline>foobar(1);'')"
proof -
  have a: "filter_code comment_remover example_target ''BEGIN\<newline>// call it\<newline>\<newline>foobar(1);''"
    by code_simp
  have b: "CHR 0x0A \<notin> set (target_api (prompt_used example_target))"
    by (simp add: example_target_def)
  have c: "strip (target_api (prompt_used example_target)) \<noteq> []"
    by code_simp
  from c have c': "target_api (prompt_used example_target) = []
      \<or> strip (target_api (prompt_used example_target)) \<noteq> []" ..
  show ?thesis
    using a b c filter_code_target_in_clean_code [OF a b c'] by simp
qed

text \<open>
  The condition on the target symbol is used: \<open>filter_code\<close> looks at the text before
  the blank lines are dropped, so a target symbol that is a single space is found in a
  line that \<open>clean_code\<close> drops.
\<close>

lemma filter_code_blank_target_example:
  "filter_code comment_remover blank_target ''foobar();\<newline> \<newline>done();''
   \<and> \<not> sublist (target_api (prompt_used blank_target))
         (clean_code comment_remover blank_target ''foobar();\<newline> \<newline>done();'')"
proof -
  have a: "filter_code comment_remover blank_target ''foobar();\<newline> \<newline>done();''"
    by code_simp
  have t: "target_api (prompt_used blank_target) = '' ''"
    by (simp add: blank_target_def)
  have "\<not> contains '' '' ''foobar();\<newline>done();''"
    by simp
  then have "\<not> sublist '' '' ''foobar();\<newline>done();''"
    using contains_sublist by blast
  then have b: "\<not> sublist (target_api (prompt_used blank_target))
         (clean_code comment_remover blank_target ''foobar();\<newline> \<newline>done();'')"
    unfolding t clean_code_example_blank_line .
  from a b show ?thesis ..
qed

text \<open>
  Removing every occurrence and removing the first occurrence give the same text when
  nothing is left to remove after the first.
\<close>

lemma replace_remove_first:
  "\<not> sublist old (remove_first old s) \<Longrightarrow> replace old [] s = remove_first old s"
proof (induction s)
  case Nil
  then show ?case by auto
next
  case (Cons c cs)
  from Cons.prems have ne: "old \<noteq> []" by auto
  show ?case
  proof (cases "prefix old (c # cs)")
    case True
    with Cons.prems have "\<not> sublist old (drop (length old) (c # cs))" by simp
    then have "replace old [] (drop (length old) (c # cs)) = drop (length old) (c # cs)"
      by (rule replace_absent)
    with True ne show ?thesis by simp
  next
    case False
    with Cons.prems have "\<not> sublist old (remove_first old cs)"
      by (simp add: sublist_Cons_right)
    with Cons.IH False ne show ?thesis by simp
  qed
qed

lemma filter_code_accept_spec:
  assumes "\<not> sublist (begin_marker (prompt_used self))
               (remove_first (begin_marker (prompt_used self)) code)"
  shows "filter_code cr self code = accept_spec cr self code"
  using replace_remove_first [OF assms] by (simp add: filter_code_def accept_spec_def)

text \<open>
  Claim C3, as amended. \<open>filter_code\<close> removes every literal occurrence of the begin
  marker from the candidate (left to right, without overlap), trims surrounding
  whitespace, strips all comments, and returns true exactly when the target symbol is a
  literal substring of the text that remains.
\<close>

theorem filter_code_algorithm:
  "filter_code cr self code \<longleftrightarrow>
     (\<exists>before after.
        cr (strip (replace (begin_marker (prompt_used self)) [] code))
          = before @ target_api (prompt_used self) @ after)"
  by (simp add: filter_code_sublist sublist_def)

theorem filter_code_first_occurrence_counterexample:
  "filter_code comment_remover example_target ''BEGIN\<newline>fooBEGINbar();''
   \<and> \<not> accept_spec comment_remover example_target ''BEGIN\<newline>fooBEGINbar();''"
  by code_simp


lemma clean_code_example_marker:
  "clean_code comment_remover example_target ''BEBEGINGIN'' = ''BEGIN''"
  by code_simp

lemma clean_code_example_marker_again:
  "clean_code comment_remover example_target ''BEGIN'' = []"
  by code_simp

text \<open>
  A second way in which normalising twice differs from normalising once, with the
  stripper above: a leading comment followed by an indented line. The first pass drops
  the line the comment leaves empty, the second pass trims the indentation that the
  first pass kept.
\<close>

lemma clean_code_example_indented:
  "clean_code comment_remover example_target ''// call it\<newline>  foobar(1);'' = ''  foobar(1);''
   \<and> clean_code comment_remover example_target ''  foobar(1);'' = ''foobar(1);''"
  by code_simp

text \<open>
  Claim C5, as amended. Normalising a second time changes nothing whenever the first
  result holds no occurrence of the begin marker, has no whitespace at either end, and
  is left unchanged by the comment stripper: for such a candidate \<open>x\<close>,
  \<open>clean_code (clean_code x) = clean_code x\<close>.
\<close>

theorem clean_code_idempotent_when_stable:
  assumes "\<not> contains (begin_marker (prompt_used self)) (clean_code cr self x)"
    and "strip (clean_code cr self x) = clean_code cr self x"
    and "cr (clean_code cr self x) = clean_code cr self x"
  shows "clean_code cr self (clean_code cr self x) = clean_code cr self x"
proof -
  define t where "t = cr (strip (replace (begin_marker (prompt_used self)) [] x))"
  define n where "n = join_lines (filter (\<lambda>ln. strip ln \<noteq> []) (split_lines t))"
  have n: "clean_code cr self x = n"
    by (simp add: clean_code_def t_def n_def)
  from assms(1) have "replace (begin_marker (prompt_used self)) [] n = n"
    by (simp add: n contains_sublist replace_absent)
  with assms(2,3) have "cr (strip (replace (begin_marker (prompt_used self)) [] n)) = n"
    by (simp add: n)
  then have "clean_code cr self n
      = join_lines (filter (\<lambda>ln. strip ln \<noteq> []) (split_lines n))"
    by (simp add: clean_code_def)
  also have "\<dots> = n"
    unfolding n_def by (rule drop_blank_lines_twice)
  finally show ?thesis by (simp add: n)
qed

theorem clean_code_idempotent_when_stable_witness:
  "\<not> contains (begin_marker (prompt_used example_target))
       (clean_code comment_remover example_target ''BEGIN\<newline>foobar(1);\<newline>\<newline>// done'')
   \<and> strip (clean_code comment_remover example_target ''BEGIN\<newline>foobar(1);\<newline>\<newline>// done'')
     = clean_code comment_remover example_target ''BEGIN\<newline>foobar(1);\<newline>\<newline>// done''
   \<and> comment_remover
       (clean_code comment_remover example_target ''BEGIN\<newline>foobar(1);\<newline>\<newline>// done'')
     = clean_code comment_remover example_target ''BEGIN\<newline>foobar(1);\<newline>\<newline>// done''
   \<and> clean_code comment_remover example_target
       (clean_code comment_remover example_target ''BEGIN\<newline>foobar(1);\<newline>\<newline>// done'')
     = clean_code comment_remover example_target ''BEGIN\<newline>foobar(1);\<newline>\<newline>// done''"
proof -
  let ?n = "clean_code comment_remover example_target ''BEGIN\<newline>foobar(1);\<newline>\<newline>// done''"
  have a: "\<not> contains (begin_marker (prompt_used example_target)) ?n"
    by code_simp
  have b: "strip ?n = ?n"
    by code_simp
  have c: "comment_remover ?n = ?n"
    by code_simp
  from a b c clean_code_idempotent_when_stable [OF a b c] show ?thesis
    by (intro conjI)
qed

theorem clean_code_not_idempotent_counterexample:
  "clean_code comment_remover example_target
       (clean_code comment_remover example_target ''BEBEGINGIN'')
     \<noteq> clean_code comment_remover example_target ''BEBEGINGIN''"
  by (simp add: clean_code_example_marker clean_code_example_marker_again)


section \<open>The artifact file\<close>

lemma first_written_eval:
  "fst first_written = ''/tmp/temp0.js''
   \<and> files (snd first_written) ''/tmp/temp0.js'' = Some ''foobar(1);''"
  by code_simp

lemma second_written_eval:
  "fst second_written = ''/tmp/temp0.js''
   \<and> files (snd second_written) ''/tmp/temp0.js'' = Some ''foobar(2);''"
  by code_simp

text \<open>
  Claim C6, as amended. The adapter itself never removes the artifact, on any exit path
  of a validation call (\<open>SAFE\<close>, \<open>FAILURE\<close>, \<open>TIMED_OUT\<close>, \<open>ERROR\<close>, or an exception that
  leaves the method): \<open>write_back_file\<close> writes the normalised source to
  \<open>/tmp/temp<CURRENT_TIME>.js\<close>, and when \<open>validate_individual\<close> returns, the files are
  exactly as the interpreter child left them, or as \<open>write_back_file\<close> left them when
  the child could not be started.
\<close>

theorem artifact_not_removed_by_adapter:
  "fst (write_back_file cr self code w) = ''/tmp/temp'' @ CURRENT_TIME self @ ''.js''
   \<and> files (snd (write_back_file cr self code w)) (fst (write_back_file cr self code w))
       = Some (clean_code cr self code)
   \<and> files (snd (validate_individual os self (fst (write_back_file cr self code w))
                    (snd (write_back_file cr self code w))))
       = (case os [''node'', fst (write_back_file cr self code w)]
                  (snd (write_back_file cr self code w)) of
            CannotStart e \<Rightarrow> files (snd (write_back_file cr self code w))
          | Runs b \<Rightarrow> files_left b)"
proof -
  have "files (snd (validate_individual os self (fst (write_back_file cr self code w))
                    (snd (write_back_file cr self code w))))
       = (case os [''node'', fst (write_back_file cr self code w)]
                  (snd (write_back_file cr self code w)) of
            CannotStart e \<Rightarrow> files (snd (write_back_file cr self code w))
          | Runs b \<Rightarrow> files_left b)"
    by (simp only: validate_individual_world subprocess_run_files)
  then show ?thesis
    by (simp add: write_back_file_def Let_def)
qed

theorem artifact_survives_counterexample:
  "fst (validate_individual node_quiet example_target (fst first_written) (snd first_written))
     = Inr (SAFE, ''ok'')
   \<and> files (snd (validate_individual node_quiet example_target (fst first_written)
                    (snd first_written))) ''/tmp/temp0.js''
     = Some ''foobar(1);''"
proof -
  have "fst (validate_individual node_quiet example_target (fst first_written) (snd first_written))
     = Inr (SAFE, ''ok'')"
    by (simp add: validate_individual_def subprocess_run_def node_quiet_def exits_with_def
        example_target_def Let_def)
  moreover have "files (snd (validate_individual node_quiet example_target (fst first_written)
                    (snd first_written))) = files (snd first_written)"
    by (simp add: validate_individual_world subprocess_run_files node_quiet_def exits_with_def)
  ultimately show ?thesis
    by (simp add: first_written_eval)
qed

text \<open>
  Claim C9, as amended. The artifact name is made from \<open>CURRENT_TIME\<close> alone, with no
  counter and no random part: any two calls of \<open>write_back_file\<close> on the same adapter
  get the same path \<open>/tmp/temp<CURRENT_TIME>.js\<close>, whatever the candidates, and when one
  call writes after the other the file named to the first call holds the normalised
  source of the second.
\<close>

theorem write_back_file_same_artifact:
  "fst (write_back_file cr self code1 w1) = fst (write_back_file cr self code2 w2)
   \<and> files (snd (write_back_file cr self code2 (snd (write_back_file cr self code1 w1))))
        (fst (write_back_file cr self code1 w1))
     = Some (clean_code cr self code2)"
  by (simp add: write_back_file_def Let_def)

theorem write_back_file_collision_counterexample:
  "fst first_written = fst second_written
   \<and> files (snd first_written) (fst first_written) = Some ''foobar(1);''
   \<and> files (snd second_written) (fst first_written) = Some ''foobar(2);''"
  by (simp add: first_written_eval second_written_eval)

end
